theory Spec2Isabelle
  imports Complex_Main "HOL-Library.Word"
begin

unbundle bit_operations_syntax

section \<open>Python values and exceptions\<close>

text \<open>
  A Python string is a list of code points. \<open>Latin c\<close> is the code point of the 8-bit
  character \<open>c\<close> (0 to 255) and \<open>Wide n\<close> is the code point \<open>256 + n\<close>, so every code
  point has one representation; \<open>lit\<close> turns the text of a literal of the program into a
  Python string. JSON admits the escape \<^verbatim>\<open>\ud800\<close>: strings may hold lone surrogates.
\<close>

datatype pychar = Latin char | Wide nat

type_synonym pystr = "pychar list"

definition lit :: "string \<Rightarrow> pystr" where
  "lit s = map Latin s"

definition py_ord :: "pychar \<Rightarrow> nat" where
  "py_ord c = (case c of Latin x \<Rightarrow> of_char x | Wide n \<Rightarrow> 256 + n)"

definition code_point :: "nat \<Rightarrow> pychar" where
  "code_point n = (if n < 256 then Latin (char_of n) else Wide (n - 256))"

definition is_surrogate :: "pychar \<Rightarrow> bool" where
  "is_surrogate c = (0xD800 \<le> py_ord c \<and> py_ord c \<le> 0xDFFF)"

text \<open>
  The service (\<^verbatim>\<open>app.py\<close>) receives a JSON document, so every value it handles is one
  of Python's JSON types. A \<^verbatim>\<open>dict\<close> is an association list in insertion order; the
  first binding of a key is the one the dictionary holds.
\<close>

datatype py =
    PNone
  | PBool bool
  | PInt int
  | PFloat rat
  | PStr pystr
  | PList "py list"
  | PDict "(pystr \<times> py) list"

type_synonym bytes = "8 word list"

datatype exn_class =
    TypeError | AttributeError | KeyError | IndexError | ValueError
  | BinasciiError | UnicodeEncodeError | RequestException | HTTPException

text \<open>An exception: its class and the text \<^verbatim>\<open>str(e)\<close> gives. All classes derive from
  \<^verbatim>\<open>Exception\<close>. The texts are plain ASCII, also those of the exceptions that the
  libraries raise.\<close>

datatype exn = Exn exn_class string

fun exn_str :: "exn \<Rightarrow> string" where
  "exn_str (Exn c m) = m"

fun is_RequestException :: "exn \<Rightarrow> bool" where
  "is_RequestException (Exn c m) = (c = RequestException)"

definition squote :: "string \<Rightarrow> string" where
  "squote s = CHR 0x27 # s @ [CHR 0x27]"

fun show_nat :: "nat \<Rightarrow> string" where
  "show_nat n =
     (if n < 10 then [''0123456789'' ! n]
      else show_nat (n div 10) @ [''0123456789'' ! (n mod 10)])"

declare show_nat.simps [simp del]

definition hex4 :: "nat \<Rightarrow> string" where
  "hex4 n =
     [''0123456789abcdef'' ! (n div 4096 mod 16), ''0123456789abcdef'' ! (n div 256 mod 16),
      ''0123456789abcdef'' ! (n div 16 mod 16), ''0123456789abcdef'' ! (n mod 16)]"

fun py_truthy :: "py \<Rightarrow> bool" where
  "py_truthy PNone = False"
| "py_truthy (PBool b) = b"
| "py_truthy (PInt i) = (i \<noteq> 0)"
| "py_truthy (PFloat r) = (r \<noteq> 0)"
| "py_truthy (PStr s) = (s \<noteq> [])"
| "py_truthy (PList xs) = (xs \<noteq> [])"
| "py_truthy (PDict kvs) = (kvs \<noteq> [])"

fun type_name :: "py \<Rightarrow> string" where
  "type_name PNone = ''NoneType''"
| "type_name (PBool b) = ''bool''"
| "type_name (PInt i) = ''int''"
| "type_name (PFloat r) = ''float''"
| "type_name (PStr s) = ''str''"
| "type_name (PList xs) = ''list''"
| "type_name (PDict kvs) = ''dict''"

fun starts_with :: "pystr \<Rightarrow> pystr \<Rightarrow> bool" where
  "starts_with [] s = True"
| "starts_with (p # ps) [] = False"
| "starts_with (p # ps) (c # cs) = (p = c \<and> starts_with ps cs)"

text \<open>\<^verbatim>\<open>k in s\<close> on two strings: \<open>k\<close> occurs in \<open>s\<close> as a substring.\<close>

fun substring :: "pystr \<Rightarrow> pystr \<Rightarrow> bool" where
  "substring k [] = (k = [])"
| "substring k (c # cs) = (starts_with k (c # cs) \<or> substring k cs)"

text \<open>The keys of a dictionary, each once, in order of first insertion.\<close>

fun dict_keys :: "(pystr \<times> py) list \<Rightarrow> pystr list" where
  "dict_keys [] = []"
| "dict_keys ((k, v) # kvs) = k # filter (\<lambda>k'. k' \<noteq> k) (dict_keys kvs)"

text \<open>\<^verbatim>\<open>k in x\<close> for a literal \<open>k\<close>: key membership on a dict, element membership on a
  list, substring test on a string, \<^verbatim>\<open>TypeError\<close> on anything else.\<close>

fun py_contains :: "string \<Rightarrow> py \<Rightarrow> exn + bool" where
  "py_contains k (PDict kvs) = Inr (lit k \<in> set (map fst kvs))"
| "py_contains k (PList xs) = Inr (PStr (lit k) \<in> set xs)"
| "py_contains k (PStr s) = Inr (substring (lit k) s)"
| "py_contains k x =
     Inl (Exn TypeError (''argument of type '' @ squote (type_name x) @ '' is not iterable''))"

text \<open>\<^verbatim>\<open>x[k]\<close> for a literal \<open>k\<close>.\<close>

fun py_getitem :: "py \<Rightarrow> string \<Rightarrow> exn + py" where
  "py_getitem (PDict kvs) k =
     (case map_of kvs (lit k) of None \<Rightarrow> Inl (Exn KeyError (squote k)) | Some v \<Rightarrow> Inr v)"
| "py_getitem (PList xs) k =
     Inl (Exn TypeError ''list indices must be integers or slices, not str'')"
| "py_getitem (PStr s) k =
     Inl (Exn TypeError (''string indices must be integers, not '' @ squote ''str''))"
| "py_getitem x k =
     Inl (Exn TypeError (squote (type_name x) @ '' object is not subscriptable''))"

fun py_len :: "py \<Rightarrow> exn + nat" where
  "py_len (PStr s) = Inr (length s)"
| "py_len (PList xs) = Inr (length xs)"
| "py_len (PDict kvs) = Inr (length (dict_keys kvs))"
| "py_len x =
     Inl (Exn TypeError (''object of type '' @ squote (type_name x) @ '' has no len()''))"

text \<open>The sequence a \<^verbatim>\<open>for\<close> loop runs over: the elements of a list, the
  one-character strings of a string, the keys of a dict.\<close>

fun py_iter :: "py \<Rightarrow> exn + py list" where
  "py_iter (PList xs) = Inr xs"
| "py_iter (PStr s) = Inr (map (\<lambda>c. PStr [c]) s)"
| "py_iter (PDict kvs) = Inr (map PStr (dict_keys kvs))"
| "py_iter x = Inl (Exn TypeError (squote (type_name x) @ '' object is not iterable''))"

text \<open>\<^verbatim>\<open>s.split(c)\<close>: the segments of \<open>s\<close> between the occurrences of \<open>c\<close>.\<close>

fun split_on :: "pychar \<Rightarrow> pystr \<Rightarrow> pystr list" where
  "split_on c [] = [[]]"
| "split_on c (x # xs) =
     (if x = c then [] # split_on c xs
      else (case split_on c xs of
              [] \<Rightarrow> [[x]]
            | seg # segs \<Rightarrow> (x # seg) # segs))"

fun py_split :: "py \<Rightarrow> pychar \<Rightarrow> exn + pystr list" where
  "py_split (PStr s) c = Inr (split_on c s)"
| "py_split x c =
     Inl (Exn AttributeError
       (squote (type_name x) @ '' object has no attribute '' @ squote ''split''))"

text \<open>\<^verbatim>\<open>xs[i]\<close> on a list of strings, for \<open>i \<ge> 0\<close>.\<close>

definition list_index :: "pystr list \<Rightarrow> nat \<Rightarrow> exn + pystr" where
  "list_index xs i =
     (if i < length xs then Inr (xs ! i) else Inl (Exn IndexError ''list index out of range''))"

section \<open>Printing\<close>

text \<open>
  \<^verbatim>\<open>print\<close> writes to a standard output that encodes UTF-8 and is strict about errors,
  Python's default. It raises \<^verbatim>\<open>UnicodeEncodeError\<close> on a text with a surrogate, naming
  the first run of surrogates by its position in the text. The prints of a URL (lines
  45, 68, 84, 88, 91, 93 and 155) and of the prefix (line 127) are part of the functions
  below. The other prints write counts, file names and texts of exceptions, which are
  plain ASCII, and cannot raise; \<^verbatim>\<open>traceback.print_exc\<close> writes to the standard error,
  which escapes what it cannot encode. They are left out.
\<close>

fun surrogate_run :: "pystr \<Rightarrow> nat \<Rightarrow> (nat \<times> pystr) option" where
  "surrogate_run [] i = None"
| "surrogate_run (c # cs) i =
     (if is_surrogate c then Some (i, takeWhile is_surrogate (c # cs))
      else surrogate_run cs (i + 1))"

definition utf8_encode_error :: "pystr \<Rightarrow> exn option" where
  "utf8_encode_error t =
     (case surrogate_run t 0 of
        None \<Rightarrow> None
      | Some (i, run) \<Rightarrow>
          Some (Exn UnicodeEncodeError
            (if length run = 1 then
               squote ''utf-8'' @ '' codec can't encode character '' @
               squote (CHR 0x5C # CHR ''u'' # hex4 (py_ord (hd run))) @
               '' in position '' @ show_nat i @ '': surrogates not allowed''
             else
               squote ''utf-8'' @ '' codec can't encode characters in position '' @
               show_nat i @ ''-'' @ show_nat (i + length run - 1) @
               '': surrogates not allowed'')))"

text \<open>
  \<^verbatim>\<open>print(f"<head>{value}...")\<close>, where what follows the value is printable: \<open>None\<close>
  when it prints, the exception when it raises. A string is formatted as it is; the
  text of any other JSON value has no surrogate, since \<^verbatim>\<open>repr\<close> escapes them.
\<close>

definition print_fstring :: "string \<Rightarrow> py \<Rightarrow> exn option" where
  "print_fstring head v =
     (case v of
        PStr s \<Rightarrow> utf8_encode_error (lit head @ s)
      | _ \<Rightarrow> None)"

section \<open>The world outside the program\<close>

text \<open>
  Everything \<^verbatim>\<open>app.py\<close> obtains from outside is a parameter. Calls that may answer
  differently each time (the network, the matcher) are indexed by the number of
  \<^verbatim>\<open>requests.get\<close> calls made before them, so two candidates with the same URL are
  free to fare differently. File operations on the temporary directory succeed, and the
  names of its files are printable.
\<close>

record env =
  tempdir :: string
    \<comment> \<open>\<^verbatim>\<open>tempfile.gettempdir()\<close>\<close>
  uuid4 :: "nat \<Rightarrow> string"
    \<comment> \<open>the text of the \<open>n\<close>-th \<^verbatim>\<open>uuid.uuid4()\<close> drawn\<close>
  http_get :: "nat \<Rightarrow> pystr \<Rightarrow> exn + (int \<times> bytes)"
    \<comment> \<open>\<^verbatim>\<open>requests.get(url, timeout=10)\<close>: an exception, or status code and content\<close>
  deepface_verify :: "nat \<Rightarrow> bytes option \<Rightarrow> bytes option \<Rightarrow> exn + bool"
    \<comment> \<open>\<^verbatim>\<open>DeepFace.verify\<close> on the contents of the two image files: an exception, or
       the \<^verbatim>\<open>verified\<close> entry of its result\<close>
  b64decode :: "pystr \<Rightarrow> exn + bytes"
    \<comment> \<open>\<^verbatim>\<open>base64.b64decode\<close> on a string\<close>

record sys =
  files :: "string \<rightharpoonup> bytes"
  uuids_drawn :: nat
  gets_made :: nat

definition write_file :: "string \<Rightarrow> bytes \<Rightarrow> sys \<Rightarrow> sys" where
  "write_file path content s = s\<lparr>files := (files s)(path \<mapsto> content)\<rparr>"

text \<open>\<^verbatim>\<open>if os.path.exists(path): os.remove(path)\<close>\<close>

definition remove_if_exists :: "string \<Rightarrow> sys \<Rightarrow> sys" where
  "remove_if_exists path s =
     (if path \<in> dom (files s) then s\<lparr>files := (files s)(path := None)\<rparr> else s)"

definition path_join :: "string \<Rightarrow> string \<Rightarrow> string" where
  "path_join d name =
     (if d = [] \<or> last d = CHR ''/'' then d @ name else d @ ''/'' @ name)"

definition temp_url_file :: "env \<Rightarrow> nat \<Rightarrow> string" where
  "temp_url_file env n = path_join (tempdir env) (''temp_url_'' @ uuid4 env n @ ''.jpg'')"

definition temp_captured_file :: "env \<Rightarrow> nat \<Rightarrow> string" where
  "temp_captured_file env n =
     path_join (tempdir env) (''temp_captured_'' @ uuid4 env n @ ''.jpg'')"

text \<open>
  \<^verbatim>\<open>requests.get\<close> on a JSON value. The library turns the URL into text and raises
  \<^verbatim>\<open>MissingSchema\<close>, a \<^verbatim>\<open>RequestException\<close>, when that text has no scheme; this is so
  for the empty string and for every value that is not a string. Every other URL is up
  to the network.
\<close>

definition requests_get :: "env \<Rightarrow> nat \<Rightarrow> py \<Rightarrow> exn + (int \<times> bytes)" where
  "requests_get env t url =
     (case url of
        PStr u \<Rightarrow>
          (if u = [] then Inl (Exn RequestException ''Invalid URL: No scheme supplied'')
           else http_get env t u)
      | _ \<Rightarrow> Inl (Exn RequestException ''Invalid URL: No scheme supplied''))"

section \<open>Comparing the photo with one candidate\<close>

text \<open>
  The inner \<^verbatim>\<open>try\<close> body of \<^verbatim>\<open>compare_photo_with_url\<close> (lines 43 to 65): download,
  report another status than 200 (line 45), save, verify, remove the file, return the
  verdict. An exception leaves the body at the point where it is raised.
\<close>

definition download_and_verify ::
  "env \<Rightarrow> sys \<Rightarrow> string \<Rightarrow> string \<Rightarrow> py \<Rightarrow> (exn + bool) \<times> sys" where
  "download_and_verify env s photo_path temp_file image_url =
     (let t = gets_made s;
          s1 = s\<lparr>gets_made := Suc t\<rparr>
      in (case requests_get env t image_url of
            Inl e \<Rightarrow> (Inl e, s1)
          | Inr (status_code, content) \<Rightarrow>
              if status_code \<noteq> 200 then
                (case print_fstring ''Failed to download image from URL: '' image_url of
                   Some e \<Rightarrow> (Inl e, s1)
                 | None \<Rightarrow> (Inr False, s1))
              else
                (let s2 = write_file temp_file content s1
                 in (case deepface_verify env t (files s2 photo_path) (files s2 temp_file) of
                       Inl e \<Rightarrow> (Inl e, s2)
                     | Inr verified \<Rightarrow> (Inr verified, remove_if_exists temp_file s2)))))"

text \<open>
  \<^verbatim>\<open>compare_photo_with_url\<close>: the inner handler catches \<^verbatim>\<open>RequestException\<close>, prints
  the URL (line 68) and removes the file; an exception of that print, like every other
  exception, reaches the outer handler, which prints the exception's text and only
  returns \<^verbatim>\<open>False\<close>.
\<close>

definition compare_photo_with_url :: "env \<Rightarrow> sys \<Rightarrow> string \<Rightarrow> py \<Rightarrow> (exn + bool) \<times> sys" where
  "compare_photo_with_url env s photo_path image_url =
     (let temp_file = temp_url_file env (uuids_drawn s);
          s0 = s\<lparr>uuids_drawn := Suc (uuids_drawn s)\<rparr>
      in (case download_and_verify env s0 photo_path temp_file image_url of
            (Inr result, s') \<Rightarrow> (Inr result, s')
          | (Inl e, s') \<Rightarrow>
              if is_RequestException e then
                (case print_fstring ''Error downloading image from URL '' image_url of
                   None \<Rightarrow> (Inr False, remove_if_exists temp_file s')
                 | Some e' \<Rightarrow> (Inr False, s'))
              else (Inr False, s')))"

section \<open>Scanning the candidates\<close>

text \<open>
  \<^verbatim>\<open>compare_photo_and_array\<close>. The print of line 84 stands before the \<^verbatim>\<open>try\<close>: its
  exception leaves the loop and the function. Inside the \<^verbatim>\<open>try\<close> are the comparison
  and the print of its outcome (line 88 or 91); the handler prints the URL again
  (line 93) and the loop goes on.
\<close>

fun compare_photo_and_array ::
  "env \<Rightarrow> sys \<Rightarrow> string \<Rightarrow> py list \<Rightarrow> (exn + py option) \<times> sys" where
  "compare_photo_and_array env s photo_path [] = (Inr None, s)"
| "compare_photo_and_array env s photo_path (image_url # rest) =
     (case print_fstring ''Comparing with URL: '' image_url of
        Some e \<Rightarrow> (Inl e, s)
      | None \<Rightarrow>
          (case compare_photo_with_url env s photo_path image_url of
             (Inr result, s') \<Rightarrow>
               (case print_fstring (if result then ''Match found with: '' else ''No match with: '')
                       image_url of
                  None \<Rightarrow>
                    if result then (Inr (Some image_url), s')
                    else compare_photo_and_array env s' photo_path rest
                | Some e \<Rightarrow>
                    (case print_fstring ''Error comparing with '' image_url of
                       Some e' \<Rightarrow> (Inl e', s')
                     | None \<Rightarrow> compare_photo_and_array env s' photo_path rest))
           | (Inl e, s') \<Rightarrow>
               (case print_fstring ''Error comparing with '' image_url of
                  Some e' \<Rightarrow> (Inl e', s')
                | None \<Rightarrow> compare_photo_and_array env s' photo_path rest)))"

section \<open>The endpoint \<^verbatim>\<open>POST /api/compare-faces\<close>\<close>

record response =
  status :: nat
  body :: "(string \<times> py) list"

text \<open>\<^verbatim>\<open>jsonify(d), code\<close>; without a code Flask answers 200.\<close>

definition jsonify :: "nat \<Rightarrow> (string \<times> py) list \<Rightarrow> response" where
  "jsonify code d = \<lparr>status = code, body = d\<rparr>"

text \<open>Line 103: \<^verbatim>\<open>not data or 'capturedImage' not in data or 'databaseUrls' not in data\<close>,
  evaluated left to right and stopping at the first true operand.\<close>

definition invalid_request :: "py \<Rightarrow> exn + bool" where
  "invalid_request data =
     (if \<not> py_truthy data then Inr True
      else
        (case py_contains ''capturedImage'' data of
           Inl e \<Rightarrow> Inl e
         | Inr has_image \<Rightarrow>
             if \<not> has_image then Inr True
             else
               (case py_contains ''databaseUrls'' data of
                  Inl e \<Rightarrow> Inl e
                | Inr has_urls \<Rightarrow> Inr (\<not> has_urls))))"

text \<open>Lines 124 to 127: when the value contains a comma it is replaced by element 1 of
  its split at commas, and element 0 is printed.\<close>

definition strip_data_uri_prefix :: "py \<Rightarrow> exn + py" where
  "strip_data_uri_prefix captured =
     (case py_contains '','' captured of
        Inl e \<Rightarrow> Inl e
      | Inr has_comma \<Rightarrow>
          if has_comma then
            (case py_split captured (Latin CHR '','') of
               Inl e \<Rightarrow> Inl e
             | Inr parts0 \<Rightarrow>
                 (case list_index parts0 0 of
                    Inl e \<Rightarrow> Inl e
                  | Inr prefix \<Rightarrow>
                      (case py_split captured (Latin CHR '','') of
                         Inl e \<Rightarrow> Inl e
                       | Inr parts1 \<Rightarrow>
                           (case list_index parts1 1 of
                              Inl e \<Rightarrow> Inl e
                            | Inr segment \<Rightarrow>
                                (case print_fstring ''Extracted base64 data with prefix: ''
                                        (PStr prefix) of
                                   Some e \<Rightarrow> Inl e
                                 | None \<Rightarrow> Inr (PStr segment))))))
          else Inr captured)"

text \<open>Lines 101 to 127: an exception, an early 400 response, or the image text and the
  candidate URLs.\<close>

definition read_request :: "exn + py \<Rightarrow> exn + (response + py \<times> py)" where
  "read_request request_json =
     (case request_json of
        Inl e \<Rightarrow> Inl e
      | Inr data \<Rightarrow>
          (case invalid_request data of
             Inl e \<Rightarrow> Inl e
           | Inr invalid \<Rightarrow>
               if invalid then
                 Inr (Inl (jsonify 400
                   [(''matchFound'', PBool False),
                    (''error'',
                     PStr (lit ''Invalid request data. Need capturedImage and databaseUrls.''))]))
               else
                 (case py_getitem data ''capturedImage'' of
                    Inl e \<Rightarrow> Inl e
                  | Inr captured_image_base64 \<Rightarrow>
                      (case py_getitem data ''databaseUrls'' of
                         Inl e \<Rightarrow> Inl e
                       | Inr database_urls \<Rightarrow>
                           (case py_len database_urls of
                              Inl e \<Rightarrow> Inl e
                            | Inr n \<Rightarrow>
                                if \<not> py_truthy database_urls \<or> n = 0 then
                                  Inr (Inl (jsonify 400
                                    [(''matchFound'', PBool False),
                                     (''error'', PStr (lit ''No database URLs provided''))]))
                                else
                                  (case strip_data_uri_prefix captured_image_base64 of
                                     Inl e \<Rightarrow> Inl e
                                   | Inr stripped \<Rightarrow> Inr (Inr (stripped, database_urls))))))))"

text \<open>\<^verbatim>\<open>base64.b64decode\<close> on a JSON value: anything but a string is a \<^verbatim>\<open>TypeError\<close>.\<close>

definition py_b64decode :: "env \<Rightarrow> py \<Rightarrow> exn + bytes" where
  "py_b64decode env x =
     (case x of
        PStr s \<Rightarrow> b64decode env s
      | _ \<Rightarrow> Inl (Exn TypeError
               (''argument should be a bytes-like object or ASCII string, not '' @
                squote (type_name x))))"

text \<open>Lines 130 to 143: \<^verbatim>\<open>open(path, 'wb')\<close> creates the file empty before the argument
  of \<^verbatim>\<open>f.write\<close> is decoded; a failure answers 400 and returns at once.\<close>

definition save_captured_image :: "env \<Rightarrow> sys \<Rightarrow> py \<Rightarrow> (response + string) \<times> sys" where
  "save_captured_image env s captured_image_base64 =
     (let temp_file_path = temp_captured_file env (uuids_drawn s);
          s0 = s\<lparr>uuids_drawn := Suc (uuids_drawn s)\<rparr>;
          s1 = write_file temp_file_path [] s0
      in (case py_b64decode env captured_image_base64 of
            Inl e \<Rightarrow>
              (Inl (jsonify 400
                 [(''matchFound'', PBool False),
                  (''error'', PStr (lit (''Invalid base64 image data: '' @ exn_str e)))]), s1)
          | Inr decoded \<Rightarrow> (Inr temp_file_path, write_file temp_file_path decoded s1)))"

text \<open>Lines 153 to 167: \<^verbatim>\<open>if match_url:\<close> tests the truth value of the scan's result;
  the matched URL is printed (line 155) before the answer is built.\<close>

definition match_response :: "py option \<Rightarrow> exn + response" where
  "match_response match_url =
     (case match_url of
        Some url \<Rightarrow>
          if py_truthy url then
            (case print_fstring ''Match found with URL: '' url of
               Some e \<Rightarrow> Inl e
             | None \<Rightarrow>
                 Inr (jsonify 200
                   [(''matchFound'', PBool True),
                    (''matchedImageUrl'', url),
                    (''confidence'', PFloat (85 / 100))]))
          else
            Inr (jsonify 200
              [(''matchFound'', PBool False),
               (''message'', PStr (lit ''No matching face found in the database''))])
      | None \<Rightarrow>
          Inr (jsonify 200
            [(''matchFound'', PBool False),
             (''message'', PStr (lit ''No matching face found in the database''))]))"

text \<open>Lines 146 to 167: scan, remove the captured image, answer. An exception out of
  the scan leaves the body before the removal.\<close>

definition scan_and_respond :: "env \<Rightarrow> sys \<Rightarrow> string \<Rightarrow> py \<Rightarrow> (exn + response) \<times> sys" where
  "scan_and_respond env s temp_file_path database_urls =
     (case py_iter database_urls of
        Inl e \<Rightarrow> (Inl e, s)
      | Inr urls \<Rightarrow>
          (case compare_photo_and_array env s temp_file_path urls of
             (Inl e, s') \<Rightarrow> (Inl e, s')
           | (Inr match_url, s') \<Rightarrow>
               (match_response match_url, remove_if_exists temp_file_path s')))"

text \<open>The \<^verbatim>\<open>try\<close> body of \<^verbatim>\<open>compare_faces\<close>.\<close>

definition compare_faces_try :: "env \<Rightarrow> sys \<Rightarrow> exn + py \<Rightarrow> (exn + response) \<times> sys" where
  "compare_faces_try env s request_json =
     (case read_request request_json of
        Inl e \<Rightarrow> (Inl e, s)
      | Inr (Inl early) \<Rightarrow> (Inr early, s)
      | Inr (Inr (captured_image_base64, database_urls)) \<Rightarrow>
          (case save_captured_image env s captured_image_base64 of
             (Inl bad, s1) \<Rightarrow> (Inr bad, s1)
           | (Inr temp_file_path, s1) \<Rightarrow>
               scan_and_respond env s1 temp_file_path database_urls))"

text \<open>\<^verbatim>\<open>compare_faces\<close>: any exception out of the body is answered with status 500; the
  handler (lines 169 to 175) removes nothing.\<close>

definition compare_faces :: "env \<Rightarrow> sys \<Rightarrow> exn + py \<Rightarrow> response \<times> sys" where
  "compare_faces env s request_json =
     (case compare_faces_try env s request_json of
        (Inr resp, s') \<Rightarrow> (resp, s')
      | (Inl e, s') \<Rightarrow>
          (jsonify 500
             [(''matchFound'', PBool False), (''error'', PStr (lit (exn_str e)))], s'))"

section \<open>A reference environment\<close>

text \<open>
  The decoder of the standard library: a string with a character outside ASCII is a
  \<^verbatim>\<open>ValueError\<close>; then \<^verbatim>\<open>binascii.a2b_base64\<close>, not strict, skips the characters
  outside the alphabet, turns each group of four digits into three bytes and stops at a
  complete padding.
\<close>

fun index_of :: "char \<Rightarrow> string \<Rightarrow> nat \<Rightarrow> nat option" where
  "index_of c [] i = None"
| "index_of c (x # xs) i = (if x = c then Some i else index_of c xs (Suc i))"

definition b64_value :: "char \<Rightarrow> 8 word option" where
  "b64_value c =
     map_option of_nat
       (index_of c ''ABCDEFGHIJKLMNOPQRSTUVWXYZabcdefghijklmnopqrstuvwxyz0123456789+/'' 0)"

fun a2b_base64 :: "nat \<Rightarrow> 8 word \<Rightarrow> nat \<Rightarrow> bytes \<Rightarrow> string \<Rightarrow> exn + bytes" where
  "a2b_base64 quad_pos leftchar pads out [] =
     (if quad_pos = 0 then Inr out
      else if quad_pos = 1 then
        Inl (Exn BinasciiError
          (''Invalid base64-encoded string: number of data characters ('' @
           show_nat (length out div 3 * 4 + 1) @
           '') cannot be 1 more than a multiple of 4''))
      else Inl (Exn BinasciiError ''Incorrect padding''))"
| "a2b_base64 quad_pos leftchar pads out (c # cs) =
     (if c = CHR ''='' then
        (if 2 \<le> quad_pos \<and> 4 \<le> quad_pos + Suc pads then Inr out
         else a2b_base64 quad_pos leftchar (if 2 \<le> quad_pos then Suc pads else pads) out cs)
      else
        (case b64_value c of
           None \<Rightarrow> a2b_base64 quad_pos leftchar pads out cs
         | Some v \<Rightarrow>
             if quad_pos = 0 then a2b_base64 1 v 0 out cs
             else if quad_pos = 1 then
               a2b_base64 2 (v AND 15) 0 (out @ [push_bit 2 leftchar OR drop_bit 4 v]) cs
             else if quad_pos = 2 then
               a2b_base64 3 (v AND 3) 0 (out @ [push_bit 4 leftchar OR drop_bit 2 v]) cs
             else a2b_base64 0 0 0 (out @ [push_bit 6 leftchar OR v]) cs))"

text \<open>The characters of an ASCII string, \<open>None\<close> for any other string.\<close>

fun ascii_chars :: "pystr \<Rightarrow> string option" where
  "ascii_chars [] = Some []"
| "ascii_chars (Latin c # cs) =
     (if (of_char c :: nat) < 128 then map_option ((#) c) (ascii_chars cs) else None)"
| "ascii_chars (Wide n # cs) = None"

definition std_b64decode :: "pystr \<Rightarrow> exn + bytes" where
  "std_b64decode s =
     (case ascii_chars s of
        None \<Rightarrow> Inl (Exn ValueError ''string argument should contain only ASCII characters'')
      | Some cs \<Rightarrow> a2b_base64 0 0 0 [] cs)"

text \<open>
  A small world for examples: \<^verbatim>\<open>alice.jpg\<close> holds the bytes \<^verbatim>\<open>ABC\<close>, \<^verbatim>\<open>bob.jpg\<close> holds
  \<^verbatim>\<open>BOB\<close>, \<^verbatim>\<open>blank.jpg\<close> downloads but shows no face, \<^verbatim>\<open>gone.jpg\<close> answers 404, and
  any other URL cannot be reached. The matcher raises when it finds no face and
  otherwise says whether the two images are the same.
\<close>

definition env0 :: env where
  "env0 =
     \<lparr>tempdir = ''/tmp'',
      uuid4 = (\<lambda>n. replicate n CHR ''0'' @ ''1''),
      http_get = (\<lambda>t url.
        if url = lit ''http://db/alice.jpg'' then Inr (200, [65, 66, 67])
        else if url = lit ''http://db/bob.jpg'' then Inr (200, [66, 79, 66])
        else if url = lit ''http://db/blank.jpg'' then Inr (200, [0])
        else if url = lit ''http://db/gone.jpg'' then Inr (404, [])
        else Inl (Exn RequestException ''Connection refused'')),
      deepface_verify = (\<lambda>t photo candidate.
        if photo = None \<or> photo = Some [] \<or> candidate = None \<or> candidate = Some [0]
        then Inl (Exn ValueError ''Face could not be detected'')
        else Inr (photo = candidate)),
      b64decode = std_b64decode\<rparr>"

text \<open>No file yet, nothing drawn, nothing fetched.\<close>

definition sys0 :: sys where
  "sys0 = \<lparr>files = Map.empty, uuids_drawn = 0, gets_made = 0\<rparr>"

text \<open>A photo with the bytes \<^verbatim>\<open>ABC\<close> is already on disk.\<close>

definition sys1 :: sys where
  "sys1 = \<lparr>files = [''/tmp/photo.jpg'' \<mapsto> [65, 66, 67]], uuids_drawn = 0, gets_made = 0\<rparr>"

section \<open>What a candidate does, read off the world\<close>

text \<open>The candidate fetched as call \<open>t\<close> downloads with status 200 and the matcher
  verifies it against the photo.\<close>

definition candidate_matches :: "env \<Rightarrow> bytes option \<Rightarrow> nat \<Rightarrow> py \<Rightarrow> bool" where
  "candidate_matches env photo t url =
     (case requests_get env t url of
        Inl e \<Rightarrow> False
      | Inr (status_code, content) \<Rightarrow>
          status_code = 200 \<and> deepface_verify env t photo (Some content) = Inr True)"

text \<open>The candidate fails: the fetch raises or answers another status than 200, or the
  matcher raises.\<close>

definition candidate_fails :: "env \<Rightarrow> bytes option \<Rightarrow> nat \<Rightarrow> py \<Rightarrow> bool" where
  "candidate_fails env photo t url =
     (case requests_get env t url of
        Inl e \<Rightarrow> True
      | Inr (status_code, content) \<Rightarrow>
          isl (deepface_verify env t photo (Some content)) \<or> status_code \<noteq> 200)"

text \<open>\<^verbatim>\<open>print\<close> accepts the value: it is not a string with a surrogate.\<close>

definition printable :: "py \<Rightarrow> bool" where
  "printable v = (case v of PStr s \<Rightarrow> \<not> list_ex is_surrogate s | _ \<Rightarrow> True)"



section \<open>Files and counters\<close>

lemma remove_if_exists_files:
  "files (remove_if_exists p s) = (files s)(p := None)"
  by (auto simp: remove_if_exists_def fun_eq_iff domIff)

lemma remove_if_exists_counters:
  "gets_made (remove_if_exists p s) = gets_made s"
  "uuids_drawn (remove_if_exists p s) = uuids_drawn s"
  by (simp_all add: remove_if_exists_def)

lemma write_file_fields:
  "files (write_file p c s) = (files s)(p \<mapsto> c)"
  "gets_made (write_file p c s) = gets_made s"
  "uuids_drawn (write_file p c s) = uuids_drawn s"
  by (simp_all add: write_file_def)

lemma removed_not_in_dom: "p \<notin> dom (files (remove_if_exists p s))"
  by (simp add: remove_if_exists_files)

lemma path_join_inject: "path_join d a = path_join d b \<Longrightarrow> a = b"
  by (auto simp: path_join_def split: if_splits)

text \<open>The captured photo never shares its name with a candidate's file.\<close>

lemma captured_is_no_candidate_file: "temp_url_file env n \<noteq> temp_captured_file env m"
proof
  assume "temp_url_file env n = temp_captured_file env m"
  then have "''temp_url_'' @ uuid4 env n @ ''.jpg'' = ''temp_captured_'' @ uuid4 env m @ ''.jpg''"
    unfolding temp_url_file_def temp_captured_file_def by (rule path_join_inject)
  then show False by simp
qed

section \<open>What print accepts\<close>

lemma surrogate_run_None: "surrogate_run t i = None \<longleftrightarrow> \<not> list_ex is_surrogate t"
  by (induction t arbitrary: i) auto

lemma is_surrogate_Latin: "is_surrogate (Latin c) = False"
proof -
  have "(of_char c :: nat) < 256" by simp
  then have "\<not> (55296 \<le> (of_char c :: nat))" by arith
  then show ?thesis by (simp add: is_surrogate_def py_ord_def)
qed

lemma is_surrogate_Wide: "is_surrogate (Wide n) = (55040 \<le> n \<and> n \<le> 57087)"
  by (auto simp: is_surrogate_def py_ord_def)

lemma lit_no_surrogate: "\<not> list_ex is_surrogate (lit s)"
  by (simp add: lit_def list_ex_iff is_surrogate_Latin)

lemma utf8_encode_error_None: "utf8_encode_error t = None \<longleftrightarrow> \<not> list_ex is_surrogate t"
proof -
  have "utf8_encode_error t = None \<longleftrightarrow> surrogate_run t 0 = None"
    by (auto simp: utf8_encode_error_def split: option.splits)
  then show ?thesis by (simp add: surrogate_run_None)
qed

text \<open>Whether a print raises depends on the value alone, not on the text before it.\<close>

lemma print_fstring_None: "print_fstring head v = None \<longleftrightarrow> printable v"
  using lit_no_surrogate [of head]
  by (cases v) (simp_all add: print_fstring_def printable_def utf8_encode_error_None)

lemma print_fstring_same:
  "print_fstring head v = None \<Longrightarrow> print_fstring head' v = None"
  by (simp add: print_fstring_None)

section \<open>One comparison\<close>

lemma compare_photo_with_url_verdict:
  assumes "temp_url_file env (uuids_drawn s) \<noteq> photo_path"
  shows "fst (compare_photo_with_url env s photo_path url) =
           Inr (candidate_matches env (files s photo_path) (gets_made s) url)"
  using assms
  by (auto simp: compare_photo_with_url_def download_and_verify_def candidate_matches_def
      write_file_fields Let_def split: sum.splits prod.splits option.splits)

lemma compare_photo_with_url_returns:
  "\<exists>b. fst (compare_photo_with_url env s photo_path url) = Inr b"
  by (auto simp: compare_photo_with_url_def Let_def split: sum.splits prod.splits option.splits)

lemma compare_photo_with_url_counters:
  "gets_made (snd (compare_photo_with_url env s photo_path url)) = Suc (gets_made s)"
  "uuids_drawn (snd (compare_photo_with_url env s photo_path url)) = Suc (uuids_drawn s)"
  by (auto simp: compare_photo_with_url_def download_and_verify_def write_file_fields
      remove_if_exists_counters Let_def split: sum.splits prod.splits option.splits)

lemma compare_photo_with_url_photo:
  assumes "temp_url_file env (uuids_drawn s) \<noteq> photo_path"
  shows "files (snd (compare_photo_with_url env s photo_path url)) photo_path = files s photo_path"
  using assms
  by (auto simp: compare_photo_with_url_def download_and_verify_def remove_if_exists_files
      write_file_fields Let_def split: sum.splits prod.splits option.splits)

text \<open>A comparison that says yes was given a URL with a true truth value: the fetch
  of a false one raises.\<close>

lemma compare_photo_with_url_truthy:
  assumes "fst (compare_photo_with_url env s photo_path url) = Inr True"
  shows "py_truthy url"
  using assms
  by (cases url)
     (auto simp: compare_photo_with_url_def download_and_verify_def requests_get_def
      Let_def split: sum.splits prod.splits if_splits option.splits)

lemma candidate_fails_no_match:
  "candidate_fails env photo t url \<Longrightarrow> \<not> candidate_matches env photo t url"
  by (auto simp: candidate_fails_def candidate_matches_def split: sum.splits)

section \<open>The scan\<close>

text \<open>One step of the loop on a URL that prints.\<close>

lemma scan_step:
  assumes "printable u"
  shows "compare_photo_and_array env s photo_path (u # us) =
           (if fst (compare_photo_with_url env s photo_path u) = Inr True
            then (Inr (Some u), snd (compare_photo_with_url env s photo_path u))
            else compare_photo_and_array env (snd (compare_photo_with_url env s photo_path u))
                   photo_path us)"
proof -
  have p: "print_fstring head u = None" for head
    using assms by (simp add: print_fstring_None)
  obtain b where "fst (compare_photo_with_url env s photo_path u) = Inr b"
    using compare_photo_with_url_returns by blast
  then show ?thesis
    by (cases "compare_photo_with_url env s photo_path u") (simp add: p)
qed

text \<open>One step on a URL that does not print: line 84 raises and nothing has happened.\<close>

lemma scan_step_unprintable:
  assumes "\<not> printable u"
  shows "\<exists>e. compare_photo_and_array env s photo_path (u # us) = (Inl e, s)"
proof -
  obtain e where "print_fstring ''Comparing with URL: '' u = Some e"
    using assms print_fstring_None [of "''Comparing with URL: ''" u] by (cases "print_fstring ''Comparing with URL: '' u") auto
  then show ?thesis by simp
qed

declare compare_photo_and_array.simps(2) [simp del]

lemma scan_photo:
  assumes "\<And>n. temp_url_file env n \<noteq> photo_path"
  shows "files (snd (compare_photo_and_array env s photo_path urls)) photo_path =
           files s photo_path"
proof (induction urls arbitrary: s)
  case Nil
  then show ?case by simp
next
  case (Cons u us)
  show ?case
  proof (cases "printable u")
    case True
    then show ?thesis
      using Cons.IH compare_photo_with_url_photo [OF assms, of s u]
      by (simp add: scan_step)
  next
    case False
    then show ?thesis using scan_step_unprintable [OF False, of env s photo_path us] by auto
  qed
qed

text \<open>On candidates that all print, the scan returns, and it returns the first match.\<close>

lemma scan_None:
  assumes "\<And>n. temp_url_file env n \<noteq> photo_path"
    and "\<forall>u\<in>set urls. printable u"
  shows "fst (compare_photo_and_array env s photo_path urls) = Inr None \<longleftrightarrow>
         (\<forall>i<length urls.
            \<not> candidate_matches env (files s photo_path) (gets_made s + i) (urls ! i))"
  using assms(2)
proof (induction urls arbitrary: s)
  case Nil
  then show ?case by simp
next
  case (Cons u us)
  let ?c = "compare_photo_with_url env s photo_path u"
  have r: "fst ?c = Inr (candidate_matches env (files s photo_path) (gets_made s) u)"
    by (rule compare_photo_with_url_verdict [OF assms(1)])
  have g: "gets_made (snd ?c) = Suc (gets_made s)"
    by (rule compare_photo_with_url_counters)
  have f: "files (snd ?c) photo_path = files s photo_path"
    by (rule compare_photo_with_url_photo [OF assms(1)])
  have u: "printable u" and us: "\<forall>u\<in>set us. printable u" using Cons.prems by simp_all
  show ?case
    using Cons.IH [OF us, of "snd ?c"] r g f
    by (simp add: scan_step [OF u] All_less_Suc2)
qed

lemma scan_Some:
  assumes "\<And>n. temp_url_file env n \<noteq> photo_path"
    and "\<forall>u\<in>set urls. printable u"
  shows "fst (compare_photo_and_array env s photo_path urls) = Inr (Some x) \<longleftrightarrow>
         (\<exists>i<length urls. urls ! i = x \<and>
            candidate_matches env (files s photo_path) (gets_made s + i) x \<and>
            (\<forall>j<i. \<not> candidate_matches env (files s photo_path) (gets_made s + j) (urls ! j)))"
  using assms(2)
proof (induction urls arbitrary: s)
  case Nil
  then show ?case by simp
next
  case (Cons u us)
  let ?c = "compare_photo_with_url env s photo_path u"
  have r: "fst ?c = Inr (candidate_matches env (files s photo_path) (gets_made s) u)"
    by (rule compare_photo_with_url_verdict [OF assms(1)])
  have g: "gets_made (snd ?c) = Suc (gets_made s)"
    by (rule compare_photo_with_url_counters)
  have f: "files (snd ?c) photo_path = files s photo_path"
    by (rule compare_photo_with_url_photo [OF assms(1)])
  have u: "printable u" and us: "\<forall>u\<in>set us. printable u" using Cons.prems by simp_all
  show ?case
  proof (cases "candidate_matches env (files s photo_path) (gets_made s) u")
    case True
    then show ?thesis using r by (auto simp: scan_step [OF u] Ex_less_Suc2)
  next
    case False
    then show ?thesis
      using Cons.IH [OF us, of "snd ?c"] r g f
      by (auto simp: scan_step [OF u] Ex_less_Suc2 All_less_Suc2)
  qed
qed

lemma scan_returns_if_printable:
  assumes "\<forall>u\<in>set urls. printable u"
  shows "\<exists>m. fst (compare_photo_and_array env s photo_path urls) = Inr m"
  using assms
proof (induction urls arbitrary: s)
  case Nil
  then show ?case by simp
next
  case (Cons u us)
  then show ?case by (simp add: scan_step)
qed

text \<open>Failing candidates that print are passed over.\<close>

lemma scan_passes_failures:
  assumes "\<And>n. temp_url_file env n \<noteq> photo_path"
    and "\<forall>u\<in>set before. printable u" and "printable u"
    and "\<forall>i<length before.
           candidate_fails env (files s photo_path) (gets_made s + i) (before ! i)"
    and "candidate_matches env (files s photo_path) (gets_made s + length before) u"
  shows "fst (compare_photo_and_array env s photo_path (before @ u # rest)) = Inr (Some u)"
  using assms(2,4,5)
proof (induction before arbitrary: s)
  case Nil
  then show ?case
    using compare_photo_with_url_verdict [OF assms(1), of s u]
    by (simp add: scan_step [OF assms(3)])
next
  case (Cons b bs)
  let ?c = "compare_photo_with_url env s photo_path b"
  have b: "printable b" and bs: "\<forall>u\<in>set bs. printable u" using Cons.prems(1) by simp_all
  have "candidate_fails env (files s photo_path) (gets_made s) b"
    using Cons.prems(2) by fastforce
  then have r: "fst ?c = Inr False"
    using compare_photo_with_url_verdict [OF assms(1), of s b] candidate_fails_no_match
    by simp
  have g: "gets_made (snd ?c) = Suc (gets_made s)"
    by (rule compare_photo_with_url_counters)
  have f: "files (snd ?c) photo_path = files s photo_path"
    by (rule compare_photo_with_url_photo [OF assms(1)])
  have "\<forall>i<length bs.
          candidate_fails env (files (snd ?c) photo_path) (gets_made (snd ?c) + i) (bs ! i)"
    using Cons.prems(2) g f by (simp add: All_less_Suc2)
  moreover have "candidate_matches env (files (snd ?c) photo_path)
      (gets_made (snd ?c) + length bs) u"
    using Cons.prems(3) g f by simp
  ultimately show ?case
    using Cons.IH [OF bs, of "snd ?c"] r by (simp add: scan_step [OF b])
qed

text \<open>The scan raises as soon as it comes to a candidate that does not print, provided
  no candidate before it matched.\<close>

lemma scan_raises_at_unprintable:
  assumes "\<And>n. temp_url_file env n \<noteq> photo_path"
    and "\<forall>u\<in>set before. printable u" and "\<not> printable u"
    and "\<forall>i<length before.
           \<not> candidate_matches env (files s photo_path) (gets_made s + i) (before ! i)"
  shows "isl (fst (compare_photo_and_array env s photo_path (before @ u # rest)))"
  using assms(2,4)
proof (induction before arbitrary: s)
  case Nil
  then show ?case using scan_step_unprintable [OF assms(3), of env s photo_path rest] by auto
next
  case (Cons b bs)
  let ?c = "compare_photo_with_url env s photo_path b"
  have b: "printable b" and bs: "\<forall>u\<in>set bs. printable u" using Cons.prems(1) by simp_all
  have "\<not> candidate_matches env (files s photo_path) (gets_made s) b"
    using Cons.prems(2) by fastforce
  then have r: "fst ?c = Inr False"
    using compare_photo_with_url_verdict [OF assms(1), of s b] by simp
  have g: "gets_made (snd ?c) = Suc (gets_made s)"
    by (rule compare_photo_with_url_counters)
  have f: "files (snd ?c) photo_path = files s photo_path"
    by (rule compare_photo_with_url_photo [OF assms(1)])
  have "\<forall>i<length bs.
          \<not> candidate_matches env (files (snd ?c) photo_path) (gets_made (snd ?c) + i) (bs ! i)"
    using Cons.prems(2) g f by (simp add: All_less_Suc2)
  then show ?case
    using Cons.IH [OF bs, of "snd ?c"] r by (simp add: scan_step [OF b])
qed

text \<open>A URL the scan returns has passed the print of line 84 and has a true truth
  value.\<close>

lemma scan_match_sound:
  "fst (compare_photo_and_array env s photo_path urls) = Inr (Some x) \<Longrightarrow>
     printable x \<and> py_truthy x"
proof (induction urls arbitrary: s)
  case Nil
  then show ?case by simp
next
  case (Cons u us)
  show ?case
  proof (cases "printable u")
    case False
    then show ?thesis
      using Cons.prems scan_step_unprintable [OF False, of env s photo_path us] by auto
  next
    case True
    show ?thesis
    proof (cases "fst (compare_photo_with_url env s photo_path u) = Inr True")
      case yes: True
      then have "x = u" using Cons.prems by (simp add: scan_step [OF True])
      then show ?thesis using True compare_photo_with_url_truthy [OF yes] by simp
    next
      case False
      then show ?thesis using Cons.IH Cons.prems by (simp add: scan_step [OF True])
    qed
  qed
qed

section \<open>The candidate's file\<close>

text \<open>What does hold for the candidate's file: it is gone after a verdict, it is never
  created when the download fails, and it stays when the matcher raises anything but a
  \<^verbatim>\<open>RequestException\<close>.\<close>

lemma candidate_file_removed_after_verdict:
  assumes "requests_get env (gets_made s) url = Inr (200, content)"
    and "deepface_verify env (gets_made s)
           (((files s)(temp_url_file env (uuids_drawn s) \<mapsto> content)) photo_path)
           (Some content) = Inr verified"
  shows "temp_url_file env (uuids_drawn s) \<notin>
           dom (files (snd (compare_photo_with_url env s photo_path url)))"
  using assms
  by (simp add: compare_photo_with_url_def download_and_verify_def write_file_fields
      remove_if_exists_files Let_def)

lemma candidate_file_absent_after_failed_download:
  assumes "case requests_get env (gets_made s) url of
             Inl e \<Rightarrow> True | Inr (status_code, content) \<Rightarrow> status_code \<noteq> 200"
    and "temp_url_file env (uuids_drawn s) \<notin> dom (files s)"
  shows "temp_url_file env (uuids_drawn s) \<notin>
           dom (files (snd (compare_photo_with_url env s photo_path url)))"
  using assms
  by (auto simp: compare_photo_with_url_def download_and_verify_def remove_if_exists_def
      Let_def split: sum.splits prod.splits option.splits)

lemma candidate_file_left_after_matcher_error:
  assumes "requests_get env (gets_made s) url = Inr (200, content)"
    and "deepface_verify env (gets_made s)
           (((files s)(temp_url_file env (uuids_drawn s) \<mapsto> content)) photo_path)
           (Some content) = Inl e"
    and "\<not> is_RequestException e"
  shows "files (snd (compare_photo_with_url env s photo_path url))
           (temp_url_file env (uuids_drawn s)) = Some content"
  using assms
  by (simp add: compare_photo_with_url_def download_and_verify_def write_file_fields Let_def)

section \<open>Evaluating examples\<close>

lemma lit_eq_iff: "lit a = lit b \<longleftrightarrow> a = b"
  by (simp add: lit_def inj_map_eq_map inj_on_def)

lemma lit_Nil_iff: "lit a = [] \<longleftrightarrow> a = []"
  by (simp add: lit_def)

lemma print_lit: "print_fstring head (PStr (lit s)) = None"
  using lit_no_surrogate [of s] by (simp add: print_fstring_None printable_def)

lemmas print_defs =
  print_fstring_def utf8_encode_error_def is_surrogate_Latin is_surrogate_Wide py_ord_def
  code_point_def
  hex4_def squote_def lit_def
  show_nat.simps [of 20] show_nat.simps [of 30] show_nat.simps [of 35]
  show_nat.simps [of 2] show_nat.simps [of 3] show_nat.simps [of 5]

lemmas scan_defs =
  compare_photo_and_array.simps(2) compare_photo_with_url_def download_and_verify_def
  requests_get_def temp_url_file_def path_join_def write_file_def remove_if_exists_def

section \<open>Claims about the scan\<close>

text \<open>
  C1. For every photo and every list of candidate URLs, \<^verbatim>\<open>compare_photo_and_array\<close> is
  to return the first URL whose fetch succeeds and whose verification says yes, or
  \<^verbatim>\<open>None\<close>. It does not for every list: \<^verbatim>\<open>alice.jpg\<close> downloads and matches, and alone
  it is returned; after the URL \<^verbatim>\<open>"\ud800"\<close>, which does not match, the scan returns
  neither \<^verbatim>\<open>alice.jpg\<close> nor \<^verbatim>\<open>None\<close>, because the print of line 84 raises
  \<^verbatim>\<open>UnicodeEncodeError\<close> outside the \<^verbatim>\<open>try\<close>.
\<close>

theorem scan_raises_before_first_match:
  "candidate_matches env0 (files sys1 ''/tmp/photo.jpg'') 1 (PStr (lit ''http://db/alice.jpg'')) \<and>
   fst (compare_photo_and_array env0 sys1 ''/tmp/photo.jpg'' [PStr (lit ''http://db/alice.jpg'')]) =
     Inr (Some (PStr (lit ''http://db/alice.jpg''))) \<and>
   fst (compare_photo_and_array env0 sys1 ''/tmp/photo.jpg''
          [PStr [code_point 0xD800], PStr (lit ''http://db/alice.jpg'')]) =
     Inl (Exn UnicodeEncodeError
       (squote ''utf-8'' @ '' codec can't encode character '' @
        squote (CHR 0x5C # ''ud800'') @ '' in position 20: surrogates not allowed''))"
  by (simp add: candidate_matches_def scan_defs print_lit lit_eq_iff lit_Nil_iff
      env0_def sys1_def Let_def)
     (simp add: print_defs del: One_nat_def)

text \<open>
  C2. A candidate whose fetch fails or on which the matcher raises is not to end the
  scan: when the candidates before the N-th fail to download and the N-th matches, the
  scan is to return the N-th. It does not when one of them cannot be printed: the first
  two candidates cannot be fetched, the third matches, and the scan raises at the second
  (line 84) without trying the third.
\<close>

theorem unprintable_candidate_aborts_scan:
  "requests_get env0 0 (PStr (lit ''http://db/down.jpg'')) =
     Inl (Exn RequestException ''Connection refused'') \<and>
   requests_get env0 1 (PStr (lit ''http://db/'' @ code_point 0xD800 # lit ''.jpg'')) =
     Inl (Exn RequestException ''Connection refused'') \<and>
   candidate_matches env0 (files sys1 ''/tmp/photo.jpg'') 2 (PStr (lit ''http://db/alice.jpg'')) \<and>
   fst (compare_photo_and_array env0 sys1 ''/tmp/photo.jpg''
          [PStr (lit ''http://db/down.jpg''),
           PStr (lit ''http://db/'' @ code_point 0xD800 # lit ''.jpg''),
           PStr (lit ''http://db/alice.jpg'')]) =
     Inl (Exn UnicodeEncodeError
       (squote ''utf-8'' @ '' codec can't encode character '' @
        squote (CHR 0x5C # ''ud800'') @ '' in position 30: surrogates not allowed''))"
  by (simp add: candidate_matches_def scan_defs print_defs env0_def sys1_def Let_def
      del: One_nat_def)

text \<open>
  C3. The file a candidate is downloaded to is removed by the time
  \<^verbatim>\<open>compare_photo_with_url\<close> returns. This fails when the matcher raises: the download
  of \<^verbatim>\<open>blank.jpg\<close> succeeds, the matcher finds no face in it, the comparison returns
  \<^verbatim>\<open>False\<close>, and the downloaded file is still there.
\<close>

theorem candidate_file_left_when_matcher_raises:
  "requests_get env0 (gets_made sys1) (PStr (lit ''http://db/blank.jpg'')) = Inr (200, [0]) \<and>
   isl (deepface_verify env0 (gets_made sys1) (files sys1 ''/tmp/photo.jpg'') (Some [0])) \<and>
   fst (compare_photo_with_url env0 sys1 ''/tmp/photo.jpg'' (PStr (lit ''http://db/blank.jpg''))) =
     Inr False \<and>
   temp_url_file env0 (uuids_drawn sys1) \<notin> dom (files sys1) \<and>
   files (snd (compare_photo_with_url env0 sys1 ''/tmp/photo.jpg''
                 (PStr (lit ''http://db/blank.jpg''))))
     (temp_url_file env0 (uuids_drawn sys1)) = Some [0]"
  by (simp add: scan_defs print_lit lit_eq_iff lit_Nil_iff env0_def sys1_def Let_def)

section \<open>Reading the request\<close>

lemma key_in_dict: "k \<in> set (map fst kvs) \<longleftrightarrow> map_of kvs k \<noteq> None"
  by (simp add: map_of_eq_None_iff)

lemma invalid_request_dict:
  "invalid_request (PDict kvs) =
     Inr (map_of kvs (lit ''capturedImage'') = None \<or> map_of kvs (lit ''databaseUrls'') = None)"
proof (cases "kvs = []")
  case True
  then show ?thesis by (simp add: invalid_request_def)
next
  case False
  then show ?thesis
    by (auto simp: invalid_request_def key_in_dict simp del: set_map)
qed

lemma py_len_truthy: "py_len v = Inr n \<Longrightarrow> py_truthy v \<longleftrightarrow> n \<noteq> 0"
proof (cases v)
  case (PDict kvs)
  assume "py_len v = Inr n"
  then show ?thesis using PDict by (cases kvs) auto
qed auto

lemma py_len_iter: "py_len v = Inr n \<Longrightarrow> \<exists>urls. py_iter v = Inr urls \<and> length urls = n"
  by (cases v) auto

lemma read_request_dict:
  assumes "map_of kvs (lit ''capturedImage'') = Some c"
    and "map_of kvs (lit ''databaseUrls'') = Some v"
  shows "read_request (Inr (PDict kvs)) =
     (case py_len v of
        Inl e \<Rightarrow> Inl e
      | Inr n \<Rightarrow>
          if n = 0 then
            Inr (Inl (jsonify 400
              [(''matchFound'', PBool False),
               (''error'', PStr (lit ''No database URLs provided''))]))
          else
            (case strip_data_uri_prefix c of
               Inl e \<Rightarrow> Inl e
             | Inr stripped \<Rightarrow> Inr (Inr (stripped, v))))"
  using assms
  by (auto simp: read_request_def invalid_request_dict py_len_truthy split: sum.splits)

lemma read_request_sized:
  assumes "read_request request_json = Inr (Inr (c, v))"
  shows "\<exists>n. py_len v = Inr n \<and> n \<noteq> 0"
  using assms
  by (auto simp: read_request_def split: sum.splits if_splits)

text \<open>Stripping the prefix of a string: without a comma the string stays; with one, the
  text before it is printed and the text up to the next comma is kept.\<close>

lemma substring_comma: "substring (lit '','') s \<longleftrightarrow> Latin CHR '','' \<in> set s"
  by (induction s) (auto simp: lit_def)

lemma split_on_nonempty: "split_on c s \<noteq> []"
  by (induction s) (auto split: list.splits)

lemma split_on_length: "c \<in> set s \<Longrightarrow> 2 \<le> length (split_on c s)"
proof (induction s)
  case Nil
  then show ?case by simp
next
  case (Cons x xs)
  show ?case
  proof (cases "x = c")
    case True
    have "1 \<le> length (split_on c xs)"
      using split_on_nonempty [of c xs] by (cases "split_on c xs") simp_all
    then show ?thesis using True by simp
  next
    case False
    then have "2 \<le> length (split_on c xs)" using Cons by simp
    then show ?thesis using False by (cases "split_on c xs") simp_all
  qed
qed

lemma split_on_head: "hd (split_on c s) = takeWhile (\<lambda>x. x \<noteq> c) s"
proof (induction s)
  case Nil
  then show ?case by simp
next
  case (Cons x xs)
  then show ?case
    using split_on_nonempty [of c xs] by (cases "split_on c xs") auto
qed

lemma split_on_append:
  "c \<notin> set a \<Longrightarrow> split_on c (a @ c # b) = a # split_on c b"
proof (induction a)
  case Nil
  then show ?case by simp
next
  case (Cons x xs)
  then show ?case by auto
qed

lemma strip_data_uri_prefix_str:
  "strip_data_uri_prefix (PStr s) =
     (if Latin CHR '','' \<in> set s then
        (case print_fstring ''Extracted base64 data with prefix: ''
                (PStr (takeWhile (\<lambda>x. x \<noteq> Latin CHR '','') s)) of
           Some e \<Rightarrow> Inl e
         | None \<Rightarrow> Inr (PStr (split_on (Latin CHR '','') s ! 1)))
      else Inr (PStr s))"
proof (cases "Latin CHR '','' \<in> set s")
  case True
  then have "2 \<le> length (split_on (Latin CHR '','') s)" by (rule split_on_length)
  then have "0 < length (split_on (Latin CHR '','') s)"
    and "1 < length (split_on (Latin CHR '','') s)"
    by arith+
  moreover have "split_on (Latin CHR '','') s ! 0 = takeWhile (\<lambda>x. x \<noteq> Latin CHR '','') s"
    using split_on_head [of "Latin CHR '',''" s] split_on_nonempty [of "Latin CHR '',''" s]
    by (simp add: hd_conv_nth)
  ultimately show ?thesis
    using True
    by (simp add: strip_data_uri_prefix_def substring_comma list_index_def
        del: length_greater_0_conv cong: option.case_cong)
next
  case False
  then show ?thesis by (simp add: strip_data_uri_prefix_def substring_comma)
qed

lemma strip_keeps_up_to_next_comma:
  assumes "Latin CHR '','' \<notin> set prefix" and "printable (PStr prefix)"
  shows "strip_data_uri_prefix (PStr (prefix @ Latin CHR '','' # rest)) =
           Inr (PStr (takeWhile (\<lambda>x. x \<noteq> Latin CHR '','') rest))"
proof -
  have "split_on (Latin CHR '','') (prefix @ Latin CHR '','' # rest) ! 1 =
          hd (split_on (Latin CHR '','') rest)"
    using split_on_append [OF assms(1), of rest] split_on_nonempty [of "Latin CHR '',''" rest]
    by (simp add: hd_conv_nth)
  moreover have "takeWhile (\<lambda>x. x \<noteq> Latin CHR '','') (prefix @ Latin CHR '','' # rest) = prefix"
    using assms(1) by (simp add: takeWhile_append)
  moreover have "print_fstring ''Extracted base64 data with prefix: '' (PStr prefix) = None"
    using assms(2) by (simp add: print_fstring_None)
  ultimately show ?thesis
    by (simp add: strip_data_uri_prefix_str split_on_head)
qed

lemma strip_raises_on_unprintable_prefix:
  assumes "Latin CHR '','' \<notin> set prefix" and "\<not> printable (PStr prefix)"
  shows "isl (strip_data_uri_prefix (PStr (prefix @ Latin CHR '','' # rest)))"
proof -
  have "takeWhile (\<lambda>x. x \<noteq> Latin CHR '','') (prefix @ Latin CHR '','' # rest) = prefix"
    using assms(1) by (simp add: takeWhile_append)
  moreover have "print_fstring ''Extracted base64 data with prefix: '' (PStr prefix) \<noteq> None"
    using assms(2) by (simp add: print_fstring_None)
  ultimately show ?thesis
    by (auto simp: strip_data_uri_prefix_str split: option.splits)
qed

section \<open>The endpoint after validation\<close>

lemma match_response_sound:
  assumes "\<forall>url. m = Some url \<longrightarrow> printable url \<and> py_truthy url"
  shows "match_response m =
           Inr (case m of
                  Some url \<Rightarrow>
                    \<lparr>status = 200,
                     body = [(''matchFound'', PBool True),
                             (''matchedImageUrl'', url),
                             (''confidence'', PFloat (85 / 100))]\<rparr>
                | None \<Rightarrow>
                    \<lparr>status = 200,
                     body = [(''matchFound'', PBool False),
                             (''message'',
                              PStr (lit ''No matching face found in the database''))]\<rparr>)"
proof (cases m)
  case None
  then show ?thesis by (simp add: match_response_def jsonify_def)
next
  case (Some url)
  then have "print_fstring ''Match found with URL: '' url = None" and "py_truthy url"
    using assms by (simp_all add: print_fstring_None)
  then show ?thesis using Some by (simp add: match_response_def jsonify_def)
qed

lemma compare_faces_scanned:
  assumes "read_request request_json = Inr (Inr (c, v))"
    and "save_captured_image env s c = (Inr path, s1)"
    and "py_iter v = Inr urls"
    and "compare_photo_and_array env s1 path urls = (Inr m, s2)"
  shows "compare_faces env s request_json =
           (case m of
              Some url \<Rightarrow>
                \<lparr>status = 200,
                 body = [(''matchFound'', PBool True),
                         (''matchedImageUrl'', url),
                         (''confidence'', PFloat (85 / 100))]\<rparr>
            | None \<Rightarrow>
                \<lparr>status = 200,
                 body = [(''matchFound'', PBool False),
                         (''message'', PStr (lit ''No matching face found in the database''))]\<rparr>,
            remove_if_exists path s2)"
proof -
  have "\<forall>url. m = Some url \<longrightarrow> printable url \<and> py_truthy url"
    using scan_match_sound [of env s1 path urls] assms(4) by simp
  then show ?thesis
    using assms
    by (simp add: compare_faces_def compare_faces_try_def scan_and_respond_def
        match_response_sound)
qed

lemma compare_faces_scan_raised:
  assumes "read_request request_json = Inr (Inr (c, v))"
    and "save_captured_image env s c = (Inr path, s1)"
    and "py_iter v = Inr urls"
    and "compare_photo_and_array env s1 path urls = (Inl e, s2)"
  shows "compare_faces env s request_json =
           (jsonify 500 [(''matchFound'', PBool False), (''error'', PStr (lit (exn_str e)))], s2)"
  using assms
  by (simp add: compare_faces_def compare_faces_try_def scan_and_respond_def)


lemma compare_faces_raised:
  assumes "read_request request_json = Inl e"
  shows "compare_faces env s request_json =
           (jsonify 500 [(''matchFound'', PBool False), (''error'', PStr (lit (exn_str e)))], s)"
  using assms by (simp add: compare_faces_def compare_faces_try_def)

lemma compare_faces_undecodable:
  assumes "read_request request_json = Inr (Inr (c, v))"
    and "py_b64decode env c = Inl e"
  shows "fst (compare_faces env s request_json) =
           jsonify 400
             [(''matchFound'', PBool False),
              (''error'', PStr (lit (''Invalid base64 image data: '' @ exn_str e)))]"
  using assms
  by (simp add: compare_faces_def compare_faces_try_def save_captured_image_def Let_def)

text \<open>A failed decoding answers 400 and leaves behind the empty file that opening it
  for writing created.\<close>

lemma undecodable_image_leaves_file:
  assumes "py_b64decode env c = Inl e"
  shows "files (snd (save_captured_image env s c)) (temp_captured_file env (uuids_drawn s)) =
           Some []"
  using assms by (simp add: save_captured_image_def write_file_fields Let_def)

lemma save_captured_image_written:
  assumes "save_captured_image env s c = (Inr path, s1)"
  shows "path = temp_captured_file env (uuids_drawn s) \<and>
         (\<exists>decoded. py_b64decode env c = Inr decoded \<and> files s1 path = Some decoded)"
  using assms
  by (auto simp: save_captured_image_def write_file_fields Let_def split: sum.splits)

text \<open>The captured image after the scan: removed when the scan returns, still there
  when the scan raises, since only the lines after the scan remove it.\<close>

lemma captured_image_removed_when_scan_returns:
  assumes "read_request request_json = Inr (Inr (c, v))"
    and "save_captured_image env s c = (Inr path, s1)"
    and "py_iter v = Inr urls"
    and "compare_photo_and_array env s1 path urls = (Inr m, s2)"
  shows "path \<notin> dom (files (snd (compare_faces env s request_json))) \<and>
         status (fst (compare_faces env s request_json)) = 200"
  using compare_faces_scanned [OF assms] removed_not_in_dom
  by (cases m) simp_all

lemma captured_image_left_when_scan_raises:
  assumes "read_request request_json = Inr (Inr (c, v))"
    and "save_captured_image env s c = (Inr path, s1)"
    and "py_iter v = Inr urls"
    and "compare_photo_and_array env s1 path urls = (Inl e, s2)"
  shows "files (snd (compare_faces env s request_json)) path = files s1 path \<and>
         path \<in> dom (files (snd (compare_faces env s request_json))) \<and>
         status (fst (compare_faces env s request_json)) = 500"
proof -
  have p: "path = temp_captured_file env (uuids_drawn s)"
    and "\<exists>decoded. files s1 path = Some decoded"
    using save_captured_image_written [OF assms(2)] by auto
  moreover have "files s2 path = files s1 path"
    using scan_photo [of env path s1 urls] captured_is_no_candidate_file assms(4)
    unfolding p by simp
  ultimately show ?thesis
    using compare_faces_scan_raised [OF assms] by (auto simp: jsonify_def)
qed

lemmas endpoint_defs =
  compare_faces_def compare_faces_try_def read_request_def invalid_request_def
  strip_data_uri_prefix_def list_index_def save_captured_image_def py_b64decode_def
  scan_and_respond_def match_response_def jsonify_def temp_captured_file_def

lemmas world_defs = env0_def sys0_def std_b64decode_def b64_value_def

section \<open>Claims about the endpoint\<close>

text \<open>
  C4. Once the captured image has been written to its transient file, that file is to
  be gone when the request completes, on the path that answers 500 as on the others.
  It is not: for the image \<^verbatim>\<open>QUJD\<close> and the candidate \<^verbatim>\<open>"\ud800"\<close> the image is decoded
  and saved, the print of line 84 raises out of the scan, the handler answers 500
  without removing anything, and the file still holds the image.
\<close>

theorem captured_image_left_after_error:
  "fst (save_captured_image env0 sys0 (PStr (lit ''QUJD''))) = Inr ''/tmp/temp_captured_1.jpg'' \<and>
   status (fst (compare_faces env0 sys0
     (Inr (PDict [(lit ''capturedImage'', PStr (lit ''QUJD'')),
                  (lit ''databaseUrls'', PList [PStr [code_point 0xD800]])])))) = 500 \<and>
   files (snd (compare_faces env0 sys0
     (Inr (PDict [(lit ''capturedImage'', PStr (lit ''QUJD'')),
                  (lit ''databaseUrls'', PList [PStr [code_point 0xD800]])]))))
     ''/tmp/temp_captured_1.jpg'' = Some [65, 66, 67]"
  by (simp add: endpoint_defs scan_defs print_defs world_defs Let_def)




text \<open>
  C6. A request whose \<^verbatim>\<open>capturedImage\<close> is the empty string is to be answered with
  status 400. It is not: the field is present, the empty string decodes to no bytes, the
  empty file is scanned against the candidates, and the answer is 200 with no match.
\<close>

theorem empty_image_accepted:
  "b64decode env0 (lit '''') = Inr [] \<and>
   fst (compare_faces env0 sys0
     (Inr (PDict [(lit ''capturedImage'', PStr (lit '''')),
                  (lit ''databaseUrls'', PList [PStr (lit ''http://db/alice.jpg'')])]))) =
     jsonify 200
       [(''matchFound'', PBool False),
        (''message'', PStr (lit ''No matching face found in the database''))]"
  by (simp add: endpoint_defs scan_defs print_defs world_defs Let_def)

text \<open>
  C7. For a \<^verbatim>\<open>capturedImage\<close> with a comma, everything after the first comma is to be
  decoded and written. With a second comma it is not: of
  \<^verbatim>\<open>data:image/jpeg;base64,QUJD,REVG\<close> only \<^verbatim>\<open>QUJD\<close> is decoded and the file holds
  \<^verbatim>\<open>ABC\<close>, while the text after the first comma, \<^verbatim>\<open>QUJD,REVG\<close>, decodes to \<^verbatim>\<open>ABCDEF\<close>.
\<close>

theorem second_comma_cuts_image:
  "strip_data_uri_prefix (PStr (lit ''data:image/jpeg;base64,QUJD,REVG'')) =
     Inr (PStr (lit ''QUJD'')) \<and>
   fst (save_captured_image env0 sys0 (PStr (lit ''QUJD''))) = Inr ''/tmp/temp_captured_1.jpg'' \<and>
   files (snd (save_captured_image env0 sys0 (PStr (lit ''QUJD'')))) ''/tmp/temp_captured_1.jpg'' =
     Some [65, 66, 67] \<and>
   b64decode env0 (lit ''QUJD,REVG'') = Inr [65, 66, 67, 68, 69, 70]"
  by (simp add: endpoint_defs path_join_def write_file_def print_defs world_defs Let_def)




text \<open>
  C9. For a valid request (it passed validation, its image was decoded and saved under
  \<open>path\<close>) the answer follows what the scan returns: for a URL, status 200 with
  \<^verbatim>\<open>matchFound\<close> true, that URL as \<^verbatim>\<open>matchedImageUrl\<close> and the constant 0.85 as
  \<^verbatim>\<open>confidence\<close>; for \<^verbatim>\<open>None\<close>, status 200 with \<^verbatim>\<open>matchFound\<close> false and a \<^verbatim>\<open>message\<close>.
  Neither answer has an \<^verbatim>\<open>error\<close> field.
\<close>

theorem scan_result_reported:
  assumes "read_request request_json = Inr (Inr (c, v))"
    and "save_captured_image env s c = (Inr path, s1)"
    and "py_iter v = Inr urls"
    and "fst (compare_photo_and_array env s1 path urls) = Inr m"
  shows "fst (compare_faces env s request_json) =
           (case m of
              Some url \<Rightarrow>
                \<lparr>status = 200,
                 body = [(''matchFound'', PBool True),
                         (''matchedImageUrl'', url),
                         (''confidence'', PFloat (85 / 100))]\<rparr>
            | None \<Rightarrow>
                \<lparr>status = 200,
                 body = [(''matchFound'', PBool False),
                         (''message'', PStr (lit ''No matching face found in the database''))]\<rparr>) \<and>
         map_of (body (fst (compare_faces env s request_json))) ''error'' = None"
proof -
  have "compare_photo_and_array env s1 path urls =
          (Inr m, snd (compare_photo_and_array env s1 path urls))"
    using assms(4) by (simp add: prod_eq_iff)
  then show ?thesis
    using compare_faces_scanned [OF assms(1,2,3)] by (cases m) simp_all
qed

theorem scan_result_reported_witness:
  "read_request
     (Inr (PDict [(lit ''capturedImage'', PStr (lit ''data:image/jpeg;base64,QUJD'')),
                  (lit ''databaseUrls'',
                   PList [PStr (lit ''http://db/bob.jpg''), PStr (lit ''http://db/alice.jpg'')])])) =
     Inr (Inr (PStr (lit ''QUJD''),
               PList [PStr (lit ''http://db/bob.jpg''), PStr (lit ''http://db/alice.jpg'')])) \<and>
   fst (save_captured_image env0 sys0 (PStr (lit ''QUJD''))) = Inr ''/tmp/temp_captured_1.jpg'' \<and>
   py_iter (PList [PStr (lit ''http://db/bob.jpg''), PStr (lit ''http://db/alice.jpg'')]) =
     Inr [PStr (lit ''http://db/bob.jpg''), PStr (lit ''http://db/alice.jpg'')] \<and>
   fst (compare_photo_and_array env0 (snd (save_captured_image env0 sys0 (PStr (lit ''QUJD''))))
          ''/tmp/temp_captured_1.jpg''
          [PStr (lit ''http://db/bob.jpg''), PStr (lit ''http://db/alice.jpg'')]) =
     Inr (Some (PStr (lit ''http://db/alice.jpg''))) \<and>
   fst (compare_faces env0 sys0
     (Inr (PDict [(lit ''capturedImage'', PStr (lit ''data:image/jpeg;base64,QUJD'')),
                  (lit ''databaseUrls'',
                   PList [PStr (lit ''http://db/bob.jpg''), PStr (lit ''http://db/alice.jpg'')])]))) =
     \<lparr>status = 200,
      body = [(''matchFound'', PBool True),
              (''matchedImageUrl'', PStr (lit ''http://db/alice.jpg'')),
              (''confidence'', PFloat (85 / 100))]\<rparr>"
  (is "?read \<and> ?saved \<and> ?iter \<and> ?scan \<and> ?answer")
proof -
  have r: ?read by (simp add: endpoint_defs print_defs)
  have s: ?saved by (simp add: endpoint_defs path_join_def world_defs lit_def Let_def)
  then have s': "save_captured_image env0 sys0 (PStr (lit ''QUJD'')) =
      (Inr ''/tmp/temp_captured_1.jpg'', snd (save_captured_image env0 sys0 (PStr (lit ''QUJD''))))"
    by (simp add: prod_eq_iff)
  have i: ?iter by simp
  have sc: ?scan
    by (simp add: endpoint_defs scan_defs print_defs world_defs Let_def)
  have ?answer
    using scan_result_reported [OF r s' i sc] by simp
  then show ?thesis using r s i sc by blast
qed

text \<open>
  C10. A \<^verbatim>\<open>capturedImage\<close> that is not a string, sent with a non-empty list of URLs, is
  to be answered with status 500 because the test for a comma raises. That is so for
  \<^verbatim>\<open>null\<close>, booleans and numbers. On a list or an object the test is an ordinary
  membership test: without a member \<^verbatim>\<open>,\<close> it is false, the decoder then raises
  \<^verbatim>\<open>TypeError\<close> inside the \<^verbatim>\<open>try\<close> around it, and the answer is 400.
\<close>

theorem list_image_answers_400:
  "status (fst (compare_faces env0 sys0
     (Inr (PDict [(lit ''capturedImage'', PList []),
                  (lit ''databaseUrls'', PList [PStr (lit ''http://db/alice.jpg'')])])))) = 400"
  by (simp add: endpoint_defs lit_def)

text \<open>
  C10, amended. A \<^verbatim>\<open>capturedImage\<close> that is not a string, sent with a non-empty list of
  URLs, is answered with \<^verbatim>\<open>matchFound\<close> false and status 500, unless it is a list or an
  object without the member \<^verbatim>\<open>,\<close> (the comma test is false): then the status is 400.
\<close>

theorem non_string_image_response:
  assumes "map_of kvs (lit ''capturedImage'') = Some captured"
    and "\<forall>x. captured \<noteq> PStr x"
    and "map_of kvs (lit ''databaseUrls'') = Some (PList (u # us))"
  shows "status (fst (compare_faces env s (Inr (PDict kvs)))) =
           (if py_contains '','' captured = Inr False then 400 else 500) \<and>
         map_of (body (fst (compare_faces env s (Inr (PDict kvs))))) ''matchFound'' =
           Some (PBool False)"
proof (cases "py_contains '','' captured")
  case (Inl e)
  then have "read_request (Inr (PDict kvs)) = Inl e"
    using read_request_dict [OF assms(1,3)] by (simp add: strip_data_uri_prefix_def)
  then show ?thesis
    using Inl compare_faces_raised [of "Inr (PDict kvs)" e env s] by (simp add: jsonify_def)
next
  case (Inr has_comma)
  show ?thesis
  proof (cases has_comma)
    case True
    obtain e where "py_split captured (Latin CHR '','') = Inl e"
      using assms(2) by (cases captured) auto
    then have "read_request (Inr (PDict kvs)) = Inl e"
      using Inr True read_request_dict [OF assms(1,3)]
      by (simp add: strip_data_uri_prefix_def)
    then show ?thesis
      using Inr True compare_faces_raised [of "Inr (PDict kvs)" e env s]
      by (simp add: jsonify_def)
  next
    case False
    have r: "read_request (Inr (PDict kvs)) = Inr (Inr (captured, PList (u # us)))"
      using Inr False read_request_dict [OF assms(1,3)]
      by (simp add: strip_data_uri_prefix_def)
    obtain e where "py_b64decode env captured = Inl e"
      using assms(2) by (cases captured) (auto simp: py_b64decode_def)
    then show ?thesis
      using Inr False compare_faces_undecodable [OF r, of env e s]
      by (simp add: jsonify_def)
  qed
qed

theorem non_string_image_response_witness:
  "map_of [(lit ''capturedImage'', PInt 5),
           (lit ''databaseUrls'', PList [PStr (lit ''http://db/alice.jpg'')])]
     (lit ''capturedImage'') = Some (PInt 5) \<and>
   (\<forall>x. PInt 5 \<noteq> PStr x) \<and>
   map_of [(lit ''capturedImage'', PInt 5),
           (lit ''databaseUrls'', PList [PStr (lit ''http://db/alice.jpg'')])]
     (lit ''databaseUrls'') = Some (PList (PStr (lit ''http://db/alice.jpg'') # [])) \<and>
   status (fst (compare_faces env0 sys0
     (Inr (PDict [(lit ''capturedImage'', PInt 5),
                  (lit ''databaseUrls'', PList [PStr (lit ''http://db/alice.jpg'')])])))) = 500 \<and>
   map_of (body (fst (compare_faces env0 sys0
     (Inr (PDict [(lit ''capturedImage'', PInt 5),
                  (lit ''databaseUrls'', PList [PStr (lit ''http://db/alice.jpg'')])])))))
     ''matchFound'' = Some (PBool False)"
  (is "?h1 \<and> ?h2 \<and> ?h3 \<and> ?concl")
proof -
  have h1: ?h1 and h2: ?h2 and h3: ?h3 by (simp_all add: lit_eq_iff)
  have ?concl using non_string_image_response [OF h1 h2 h3, of env0 sys0] by simp
  then show ?thesis using h1 h2 h3 by blast
qed

end
